theory Spec2Isabelle
  imports Complex_Main "HOL-Library.Multiset"
begin

section \<open>Python values used by the handlers\<close>

text \<open>
  The exceptions the modelled code can raise. A handler that lets one escape is
  a value \<open>Inl e\<close>; a handler that returns a response is \<open>Inr r\<close>.
\<close>

datatype error = ValueError | ZeroDivisionError | IndexError | OverflowError

text \<open>
  A Python float: a finite value, an infinity or NaN. Finite values are carried as
  reals (the rounding of binary64 arithmetic is not modelled). Comparisons follow
  IEEE 754 as Python does: every comparison with NaN is false.
\<close>

datatype pyfloat = Finite real | PosInf | NegInf | NaN

fun float_lt :: "pyfloat \<Rightarrow> pyfloat \<Rightarrow> bool" where
  "float_lt NaN b = False"
| "float_lt a NaN = False"
| "float_lt (Finite x) (Finite y) = (x < y)"
| "float_lt (Finite x) PosInf = True"
| "float_lt (Finite x) NegInf = False"
| "float_lt PosInf b = False"
| "float_lt NegInf NegInf = False"
| "float_lt NegInf b = True"

text \<open>
  The builtins \<open>min(a, b)\<close> and \<open>max(a, b)\<close>: the first argument is kept unless
  the second is strictly smaller (strictly greater).
\<close>

definition py_min :: "pyfloat \<Rightarrow> pyfloat \<Rightarrow> pyfloat" where
  "py_min a b = (if float_lt b a then b else a)"

definition py_max :: "pyfloat \<Rightarrow> pyfloat \<Rightarrow> pyfloat" where
  "py_max a b = (if float_lt a b then b else a)"

text \<open>
  \<open>time.sleep(d)\<close>, as CPython 3.11 has it: NaN raises ValueError; the delay is then
  converted to a 64-bit count of nanoseconds, and a value that does not fit (an
  infinity, or a magnitude beyond \<open>2^63\<close> ns, about 9.2e9 seconds) raises
  OverflowError; a negative delay that fits raises ValueError; otherwise the call
  returns after the delay.
\<close>

fun time_sleep :: "pyfloat \<Rightarrow> error + unit" where
  "time_sleep NaN = Inl ValueError"
| "time_sleep PosInf = Inl OverflowError"
| "time_sleep NegInf = Inl OverflowError"
| "time_sleep (Finite x) =
     (if x * 1000000000 < - (2 ^ 63) \<or> 2 ^ 63 < x * 1000000000 then Inl OverflowError
      else if x < 0 then Inl ValueError
      else Inr ())"

text \<open>JSON values; a dict keeps its insertion order, so an object is an association list.\<close>

datatype json =
    JNull
  | JBool bool
  | JInt int
  | JFloat pyfloat
  | JStr string
  | JList "json list"
  | JObj "(string \<times> json) list"

fun field :: "string \<Rightarrow> json \<Rightarrow> json option" where
  "field k (JObj kvs) = map_of kvs k"
| "field k j = None"

text \<open>What \<open>jsonify(body), status\<close> hands to the transport (\<open>jsonify(body)\<close> alone is 200).\<close>

record response =
  status :: int
  body :: json

subsection \<open>Decimal text\<close>

definition digit_char :: "nat \<Rightarrow> char" where
  "digit_char n = ''0123456789'' ! (n mod 10)"

fun str_nat :: "nat \<Rightarrow> string" where
  "str_nat n = (if n < 10 then [digit_char n] else str_nat (n div 10) @ [digit_char n])"

declare str_nat.simps [simp del]

definition str_int :: "int \<Rightarrow> string" where
  "str_int i = (if i < 0 then CHR ''-'' # str_nat (nat (- i)) else str_nat (nat i))"


subsection \<open>Parsing numbers: the builtins \<open>int\<close> and \<open>float\<close> on text\<close>

text \<open>
  Characters are bytes here, so the model covers ASCII input. \<open>str.strip()\<close> removes
  the characters for which \<open>str.isspace\<close> holds: 0x09..0x0D, 0x1C..0x1F and the space.
  \<open>int\<close> and \<open>float\<close> skip only the whitespace of C around an ASCII text:
  0x09..0x0D and the space. Digits are \<open>0\<close>..\<open>9\<close>; digit groups may be joined by
  single underscores. A text that is not a number raises ValueError, and so does, for
  \<open>int\<close>, a text of more than 4300 digits (the default limit of CPython 3.11).
\<close>

definition is_space :: "char \<Rightarrow> bool" where
  "is_space c = (let n = (of_char c :: nat) in (9 \<le> n \<and> n \<le> 13) \<or> (28 \<le> n \<and> n \<le> 32))"

definition strip :: "string \<Rightarrow> string" where
  "strip s = rev (dropWhile is_space (rev (dropWhile is_space s)))"

definition is_c_space :: "char \<Rightarrow> bool" where
  "is_c_space c = (let n = (of_char c :: nat) in (9 \<le> n \<and> n \<le> 13) \<or> n = 32)"

definition c_strip :: "string \<Rightarrow> string" where
  "c_strip s = rev (dropWhile is_c_space (rev (dropWhile is_c_space s)))"

definition is_digit :: "char \<Rightarrow> bool" where
  "is_digit c = (let n = (of_char c :: nat) in 48 \<le> n \<and> n \<le> 57)"

definition digit_val :: "char \<Rightarrow> nat" where
  "digit_val c = of_char c - 48"

fun digits_from :: "nat \<Rightarrow> string \<Rightarrow> nat option" where
  "digits_from acc [] = Some acc"
| "digits_from acc [c] = (if is_digit c then Some (10 * acc + digit_val c) else None)"
| "digits_from acc (c # d # ds) =
     (if is_digit c then digits_from (10 * acc + digit_val c) (d # ds)
      else if c = CHR ''_'' \<and> is_digit d then digits_from (10 * acc + digit_val d) ds
      else None)"

definition digits :: "string \<Rightarrow> nat option" where
  "digits s = (case s of
       [] \<Rightarrow> None
     | c # cs \<Rightarrow> if is_digit c then digits_from (digit_val c) cs else None)"

definition max_str_digits :: nat where
  "max_str_digits = 4300"

definition py_int :: "string \<Rightarrow> error + int" where
  "py_int s = (case c_strip s of
       [] \<Rightarrow> Inl ValueError
     | c # cs \<Rightarrow>
         (case (if c = CHR ''-'' \<or> c = CHR ''+'' then digits cs else digits (c # cs)) of
            None \<Rightarrow> Inl ValueError
          | Some n \<Rightarrow>
              if length (filter is_digit (c # cs)) > max_str_digits then Inl ValueError
              else Inr (if c = CHR ''-'' then - int n else int n)))"

text \<open>
  \<open>float\<close> accepts a sign, then \<open>inf\<close>, \<open>infinity\<close> or \<open>nan\<close> in any case, or a
  decimal number with an optional fraction and exponent. \<open>binary64\<close> is the range
  of the conversion to a double: a magnitude of at least \<open>2^1024 - 2^970\<close> becomes an
  infinity and one of at most \<open>2^-1075\<close> becomes zero (the sign of a zero plays no part
  in a comparison). In between the value is kept as the decimal value itself: the
  rounding to the nearest double, which is monotone and leaves 0, 1 and 5 fixed, is
  not modelled.
\<close>

definition binary64 :: "real \<Rightarrow> pyfloat" where
  "binary64 v =
     (if 2 ^ 1024 - 2 ^ 970 \<le> \<bar>v\<bar> then (if 0 < v then PosInf else NegInf)
      else if \<bar>v\<bar> * 2 ^ 1075 \<le> 1 then Finite 0
      else Finite v)"

definition to_lower :: "char \<Rightarrow> char" where
  "to_lower c = (let n = (of_char c :: nat) in if 65 \<le> n \<and> n \<le> 90 then char_of (n + 32) else c)"

definition mantissa :: "string \<Rightarrow> real option" where
  "mantissa m =
     (let ip = takeWhile (\<lambda>c. c \<noteq> CHR ''.'') m;
          rest = dropWhile (\<lambda>c. c \<noteq> CHR ''.'') m
      in case rest of
           [] \<Rightarrow> map_option real (digits ip)
         | dot # fp \<Rightarrow>
             if ip = [] then
               map_option (\<lambda>f. real f / 10 ^ length (filter is_digit fp)) (digits fp)
             else
               (case digits ip of
                  None \<Rightarrow> None
                | Some i \<Rightarrow>
                    if fp = [] then Some (real i)
                    else map_option (\<lambda>f. real i + real f / 10 ^ length (filter is_digit fp))
                           (digits fp)))"

definition exponent :: "string \<Rightarrow> int option" where
  "exponent e = (case e of
       [] \<Rightarrow> None
     | c # cs \<Rightarrow>
         if c = CHR ''-'' then map_option (\<lambda>n. - int n) (digits cs)
         else if c = CHR ''+'' then map_option int (digits cs)
         else map_option int (digits (c # cs)))"

definition unsigned_float :: "string \<Rightarrow> pyfloat option" where
  "unsigned_float t =
     (let l = map to_lower t in
      if l = ''inf'' \<or> l = ''infinity'' then Some PosInf
      else if l = ''nan'' then Some NaN
      else
        let m = takeWhile (\<lambda>c. c \<noteq> CHR ''e'') l;
            rest = dropWhile (\<lambda>c. c \<noteq> CHR ''e'') l
        in case mantissa m of
             None \<Rightarrow> None
           | Some v \<Rightarrow>
               (case rest of
                  [] \<Rightarrow> Some (binary64 v)
                | e # ex \<Rightarrow>
                    (case exponent ex of
                       None \<Rightarrow> None
                     | Some k \<Rightarrow>
                         Some (binary64 (if 0 \<le> k then v * 10 ^ nat k
                                         else v / 10 ^ nat (- k))))))"

fun float_neg :: "pyfloat \<Rightarrow> pyfloat" where
  "float_neg (Finite x) = Finite (- x)"
| "float_neg PosInf = NegInf"
| "float_neg NegInf = PosInf"
| "float_neg NaN = NaN"

definition py_float :: "string \<Rightarrow> error + pyfloat" where
  "py_float s = (case c_strip s of
       [] \<Rightarrow> Inl ValueError
     | c # cs \<Rightarrow>
         (case (if c = CHR ''-'' \<or> c = CHR ''+'' then unsigned_float cs
                else unsigned_float (c # cs)) of
            None \<Rightarrow> Inl ValueError
          | Some f \<Rightarrow> Inr (if c = CHR ''-'' then float_neg f else f)))"

subsection \<open>Query parameters\<close>

text \<open>
  \<open>request.args\<close> as the list of decoded pairs of the query string;
  \<open>request.args.get(k, default)\<close> is the first value of \<open>k\<close> or the default, and
  \<open>int\<close> (\<open>float\<close>) of a default that is already a number is that number.
\<close>

type_synonym args = "(string \<times> string) list"

definition int_arg :: "args \<Rightarrow> string \<Rightarrow> int \<Rightarrow> error + int" where
  "int_arg a k dflt = (case map_of a k of None \<Rightarrow> Inr dflt | Some s \<Rightarrow> py_int s)"

definition float_arg :: "args \<Rightarrow> string \<Rightarrow> pyfloat \<Rightarrow> error + pyfloat" where
  "float_arg a k dflt = (case map_of a k of None \<Rightarrow> Inr dflt | Some s \<Rightarrow> py_float s)"

subsection \<open>Streamed responses\<close>

text \<open>
  A streamed body is produced by a generator that the transport runs to its end. Its
  run is the list of its effects in order (a text handed to the client, or a completed
  sleep) and the exception that ended it, if one did. The text of a chunk is kept as
  its pieces: literal text and \<open>json.dumps\<close> of a value.
\<close>

datatype piece = Lit string | Dumps json

datatype effect = Yield "piece list" | Sleep pyfloat

record stream =
  mimetype :: string
  headers :: "(string \<times> string) list"
  trace :: "effect list"
  fault :: "error option"

definition py_range :: "int \<Rightarrow> int list" where
  "py_range n = map int [0..<nat n]"

fun yields :: "effect list \<Rightarrow> piece list list" where
  "yields [] = []"
| "yields (Yield y # es) = y # yields es"
| "yields (Sleep d # es) = yields es"

fun sleeps :: "effect list \<Rightarrow> pyfloat list" where
  "sleeps [] = []"
| "sleeps (Yield y # es) = sleeps es"
| "sleeps (Sleep d # es) = d # sleeps es"

section \<open>Random failure injection: \<open>/simulate/fail/<float:probability>\<close>\<close>

text \<open>
  \<open>random_failure\<close> of \<open>simulation_routes.py\<close>. \<open>now k\<close> is the text of the
  \<open>k\<close>-th \<open>datetime.utcnow().isoformat()\<close> of the request, and \<open>draw\<close> the value
  returned by \<open>random.random()\<close>.
\<close>

definition clamp_probability :: "pyfloat \<Rightarrow> pyfloat" where
  "clamp_probability probability = py_max (Finite 0) (py_min (Finite 1) probability)"

definition random_failure :: "(nat \<Rightarrow> string) \<Rightarrow> real \<Rightarrow> pyfloat \<Rightarrow> response" where
  "random_failure now draw probability0 =
     (let probability = clamp_probability probability0 in
      if float_lt (Finite draw) probability then
        \<lparr>status = 500,
         body = JObj [(''error'', JStr ''Simulated failure''),
                      (''probability'', JFloat probability),
                      (''message'', JStr ''This endpoint randomly failed''),
                      (''timestamp'', JStr (now 0 @ ''Z''))]\<rparr>
      else
        \<lparr>status = 200,
         body = JObj [(''success'', JBool True),
                      (''probability'', JFloat probability),
                      (''message'', JStr ''Request succeeded despite failure probability''),
                      (''timestamp'', JStr (now 0 @ ''Z''))]\<rparr>)"


section \<open>Chunked JSON stream: \<open>/advanced/streaming\<close>\<close>

text \<open>
  \<open>streaming_response\<close> of \<open>advanced_routes.py\<close>. The two parameters are read first
  (a text that does not parse raises there, before any response exists); the generator
  \<open>generate\<close> then runs the loop \<open>for i in range(chunks)\<close>. Iteration \<open>i\<close> reads the
  clock once, so its timestamp is the \<open>i\<close>-th reading.
\<close>

definition streaming_params :: "args \<Rightarrow> error + int \<times> pyfloat" where
  "streaming_params a =
     (case int_arg a ''chunks'' 10 of
        Inl e \<Rightarrow> Inl e
      | Inr c \<Rightarrow>
          (case float_arg a ''delay'' (Finite (1/2)) of
             Inl e \<Rightarrow> Inl e
           | Inr d \<Rightarrow> Inr (min c 100, py_min d (Finite 5))))"

definition chunk_data :: "(nat \<Rightarrow> string) \<Rightarrow> int \<Rightarrow> int \<Rightarrow> json" where
  "chunk_data now chunks i =
     JObj [(''chunk'', JInt (i + 1)),
           (''total_chunks'', JInt chunks),
           (''timestamp'', JStr (now (nat i) @ ''Z'')),
           (''data'', JStr (''This is chunk '' @ str_int (i + 1) @ '' of '' @ str_int chunks))]"

fun generate_loop ::
  "(nat \<Rightarrow> string) \<Rightarrow> int \<Rightarrow> pyfloat \<Rightarrow> int list \<Rightarrow> effect list \<times> error option" where
  "generate_loop now chunks delay [] = ([], None)"
| "generate_loop now chunks delay (i # rest) =
     (let y = Yield [Dumps (chunk_data now chunks i), Lit [CHR 0x0A]] in
      if i < chunks - 1 then
        (case time_sleep delay of
           Inl e \<Rightarrow> ([y], Some e)
         | Inr u \<Rightarrow>
             (case generate_loop now chunks delay rest of
                (tr, r) \<Rightarrow> (y # Sleep delay # tr, r)))
      else
        (case generate_loop now chunks delay rest of
           (tr, r) \<Rightarrow> (y # tr, r)))"

definition generate :: "(nat \<Rightarrow> string) \<Rightarrow> int \<Rightarrow> pyfloat \<Rightarrow> effect list \<times> error option" where
  "generate now chunks delay = generate_loop now chunks delay (py_range chunks)"

definition streaming_response :: "(nat \<Rightarrow> string) \<Rightarrow> args \<Rightarrow> error + stream" where
  "streaming_response now a =
     (case streaming_params a of
        Inl e \<Rightarrow> Inl e
      | Inr (chunks, delay) \<Rightarrow>
          (case generate now chunks delay of
             (tr, r) \<Rightarrow>
               Inr \<lparr>mimetype = ''application/json'', headers = [], trace = tr, fault = r\<rparr>))"

section \<open>Server-sent events: \<open>/advanced/sse\<close>\<close>

text \<open>
  \<open>server_sent_events\<close> of \<open>advanced_routes.py\<close>. \<open>rnd i\<close> is the value of
  \<open>random.randint(1, 100)\<close> in iteration \<open>i\<close>. The completion frame is the statement
  after the loop, so it is reached only when the loop ends without an exception.
\<close>

definition sse_params :: "args \<Rightarrow> error + int \<times> pyfloat" where
  "sse_params a =
     (case int_arg a ''events'' 10 of
        Inl e \<Rightarrow> Inl e
      | Inr n \<Rightarrow>
          (case float_arg a ''interval'' (Finite 1) of
             Inl e \<Rightarrow> Inl e
           | Inr d \<Rightarrow> Inr (min n 50, py_min d (Finite 5))))"

definition event_data :: "(nat \<Rightarrow> string) \<Rightarrow> (nat \<Rightarrow> int) \<Rightarrow> int \<Rightarrow> int \<Rightarrow> json" where
  "event_data now rnd events i =
     JObj [(''event_id'', JInt (i + 1)),
           (''timestamp'', JStr (now (nat i) @ ''Z'')),
           (''data'', JStr (''Event '' @ str_int (i + 1) @ '' of '' @ str_int events)),
           (''random_value'', JInt (rnd (nat i)))]"

definition data_frame :: "json \<Rightarrow> piece list" where
  "data_frame j = [Lit ''data: '', Dumps j, Lit [CHR 0x0A, CHR 0x0A]]"

definition complete_frame :: "piece list" where
  "complete_frame =
     [Lit (''event: complete'' @ [CHR 0x0A] @ ''data: {'' @ [CHR 0x22] @ ''message''
           @ [CHR 0x22] @ '': '' @ [CHR 0x22] @ ''Stream complete'' @ [CHR 0x22] @ ''}''
           @ [CHR 0x0A, CHR 0x0A])]"

fun event_stream_loop ::
  "(nat \<Rightarrow> string) \<Rightarrow> (nat \<Rightarrow> int) \<Rightarrow> int \<Rightarrow> pyfloat \<Rightarrow> int list
     \<Rightarrow> effect list \<times> error option" where
  "event_stream_loop now rnd events interval [] = ([], None)"
| "event_stream_loop now rnd events interval (i # rest) =
     (let y = Yield (data_frame (event_data now rnd events i)) in
      if i < events - 1 then
        (case time_sleep interval of
           Inl e \<Rightarrow> ([y], Some e)
         | Inr u \<Rightarrow>
             (case event_stream_loop now rnd events interval rest of
                (tr, r) \<Rightarrow> (y # Sleep interval # tr, r)))
      else
        (case event_stream_loop now rnd events interval rest of
           (tr, r) \<Rightarrow> (y # tr, r)))"

definition event_stream ::
  "(nat \<Rightarrow> string) \<Rightarrow> (nat \<Rightarrow> int) \<Rightarrow> int \<Rightarrow> pyfloat \<Rightarrow> effect list \<times> error option" where
  "event_stream now rnd events interval =
     (case event_stream_loop now rnd events interval (py_range events) of
        (tr, Some e) \<Rightarrow> (tr, Some e)
      | (tr, None) \<Rightarrow> (tr @ [Yield complete_frame], None))"

definition server_sent_events ::
  "(nat \<Rightarrow> string) \<Rightarrow> (nat \<Rightarrow> int) \<Rightarrow> args \<Rightarrow> error + stream" where
  "server_sent_events now rnd a =
     (case sse_params a of
        Inl e \<Rightarrow> Inl e
      | Inr (events, interval) \<Rightarrow>
          (case event_stream now rnd events interval of
             (tr, r) \<Rightarrow>
               Inr \<lparr>mimetype = ''text/event-stream'',
                    headers = [(''Cache-Control'', ''no-cache''), (''Connection'', ''keep-alive'')],
                    trace = tr, fault = r\<rparr>))"

section \<open>Timed feeds: \<open>/realtime/feed\<close> and \<open>/realtime/status\<close>\<close>

text \<open>
  The parameters of \<open>live_data_feed\<close> and \<open>system_status_stream\<close> of \<open>realtime.py\<close>,
  as the handlers compute them before their generators start.
\<close>

definition live_data_feed_duration :: "args \<Rightarrow> error + int" where
  "live_data_feed_duration a =
     (case int_arg a ''duration'' 30 of
        Inl e \<Rightarrow> Inl e
      | Inr d \<Rightarrow> Inr (min d 120))"

definition system_status_stream_params :: "args \<Rightarrow> error + pyfloat \<times> int" where
  "system_status_stream_params a =
     (case float_arg a ''interval'' (Finite 3) of
        Inl e \<Rightarrow> Inl e
      | Inr i \<Rightarrow>
          (case int_arg a ''duration'' 60 of
             Inl e \<Rightarrow> Inl e
           | Inr d \<Rightarrow> Inr (py_max (Finite 1) i, min d 300)))"

section \<open>Rate limiter emulation: \<open>/simulate/rate-limit\<close>\<close>

text \<open>
  \<open>rate_limit_test\<close> of \<open>simulation_routes.py\<close>. \<open>current_minute\<close> is
  \<open>datetime.utcnow().minute\<close>, \<open>offset\<close> the value of \<open>random.randint(1, 15)\<close> and
  \<open>reset\<close> the text of the clock truncated to the minute. Python's \<open>%\<close> on integers
  takes the sign of the divisor, as \<open>mod\<close> does, and raises on a zero divisor.
\<close>

definition py_mod :: "int \<Rightarrow> int \<Rightarrow> error + int" where
  "py_mod a b = (if b = 0 then Inl ZeroDivisionError else Inr (a mod b))"

definition rate_limit_test :: "string \<Rightarrow> int \<Rightarrow> int \<Rightarrow> args \<Rightarrow> error + response" where
  "rate_limit_test reset current_minute offset a =
     (case int_arg a ''limit'' 10 of
        Inl e \<Rightarrow> Inl e
      | Inr limit \<Rightarrow>
          (case py_mod (current_minute + offset) limit of
             Inl e \<Rightarrow> Inl e
           | Inr request_count \<Rightarrow>
               if request_count \<ge> limit then
                 Inr \<lparr>status = 429,
                      body = JObj [(''error'', JStr ''Rate limit exceeded''),
                                   (''limit'', JInt limit),
                                   (''retry_after'', JInt 60),
                                   (''current_count'', JInt request_count)]\<rparr>
               else
                 Inr \<lparr>status = 200,
                      body = JObj [(''success'', JBool True),
                                   (''rate_limit'', JInt limit),
                                   (''current_count'', JInt request_count),
                                   (''remaining'', JInt (limit - request_count)),
                                   (''reset_time'', JStr (reset @ ''Z''))]\<rparr>))"

section \<open>Random status selection: \<open>/simulate/random-status\<close>\<close>

text \<open>
  \<open>random_status\<close> of \<open>simulation_routes.py\<close>. \<open>str.split(",")\<close> always returns at
  least one piece. The list comprehension stops at the first entry that \<open>int\<close>
  rejects; the handler catches that ValueError. \<open>random.choice(seq)\<close> raises
  IndexError on an empty sequence and otherwise returns \<open>seq[k]\<close> for an index \<open>k\<close>
  below the length, here \<open>r mod len(seq)\<close> for the random number \<open>r\<close>.
\<close>

fun split_on :: "char \<Rightarrow> string \<Rightarrow> string list" where
  "split_on sep [] = [[]]"
| "split_on sep (c # cs) =
     (if c = sep then [] # split_on sep cs
      else (case split_on sep cs of
              [] \<Rightarrow> [[c]]
            | w # ws \<Rightarrow> (c # w) # ws))"

fun parse_codes :: "string list \<Rightarrow> error + int list" where
  "parse_codes [] = Inr []"
| "parse_codes (code # rest) =
     (case py_int (strip code) of
        Inl e \<Rightarrow> Inl e
      | Inr n \<Rightarrow> (case parse_codes rest of Inl e \<Rightarrow> Inl e | Inr ns \<Rightarrow> Inr (n # ns)))"

definition random_choice :: "nat \<Rightarrow> 'a list \<Rightarrow> error + 'a" where
  "random_choice r xs = (if xs = [] then Inl IndexError else Inr (xs ! (r mod length xs)))"

definition codes_param :: "args \<Rightarrow> string" where
  "codes_param a = (case map_of a ''codes'' of None \<Rightarrow> ''200,404,500'' | Some s \<Rightarrow> s)"

definition random_status :: "(nat \<Rightarrow> string) \<Rightarrow> nat \<Rightarrow> args \<Rightarrow> error + response" where
  "random_status now r a =
     (case parse_codes (split_on CHR '','' (codes_param a)) of
        Inl ValueError \<Rightarrow>
          Inr \<lparr>status = 400, body = JObj [(''error'', JStr ''Invalid status codes'')]\<rparr>
      | Inl e \<Rightarrow> Inl e
      | Inr codes \<Rightarrow>
          (case random_choice r codes of
             Inl e \<Rightarrow> Inl e
           | Inr chosen_code \<Rightarrow>
               Inr \<lparr>status = chosen_code,
                    body = JObj [(''status'', JInt chosen_code),
                                 (''message'', JStr (''Randomly selected status code ''
                                                      @ str_int chosen_code)),
                                 (''available_codes'', JList (map JInt codes)),
                                 (''timestamp'', JStr (now 0 @ ''Z''))]\<rparr>))"

section \<open>Bounded recursive cascade: \<open>/stress/cascade/<int:depth>\<close>\<close>

text \<open>
  \<open>cascade_requests\<close> of \<open>stress_tests.py\<close>. The route converter \<open>int\<close> matches
  digits only, so the depth that reaches the handler is a natural number.
  \<open>cascade_function\<close> returns its result together with the sleeps it made, in order.
  A level reads the clock after its child has returned, so level \<open>l\<close> holds reading
  \<open>l - 1\<close>. \<open>elapsed\<close> is \<open>end_time - start_time\<close>.
\<close>

function cascade_function :: "(nat \<Rightarrow> string) \<Rightarrow> int \<Rightarrow> json \<times> effect list" where
  "cascade_function now current_depth =
     (if current_depth \<le> 0 then
        (JObj [(''level'', JInt 0), (''message'', JStr ''Base case reached'')], [])
      else
        (case cascade_function now (current_depth - 1) of
           (child_result, tr) \<Rightarrow>
             (JObj [(''level'', JInt current_depth),
                    (''message'', JStr (''Processing level '' @ str_int current_depth)),
                    (''child'', child_result),
                    (''timestamp'', JStr (now (nat (current_depth - 1)) @ ''Z''))],
              Sleep (Finite (1/10)) # tr)))"
  by pat_completeness auto
termination
  by (relation "measure (\<lambda>(now, d). nat d)") auto

declare cascade_function.simps [simp del]

definition cascade_requests ::
  "(nat \<Rightarrow> string) \<Rightarrow> real \<Rightarrow> nat \<Rightarrow> response \<times> effect list" where
  "cascade_requests now elapsed depth0 =
     (let depth = min (int depth0) 10 in
      case cascade_function now depth of
        (result, tr) \<Rightarrow>
          (\<lparr>status = 200,
            body = JObj [(''requested_depth'', JInt depth),
                         (''total_processing_time'', JFloat (Finite elapsed)),
                         (''cascade_result'', result),
                         (''timestamp'', JStr (now (nat depth) @ ''Z''))]\<rparr>,
           tr))"

text \<open>The levels of a nested trace, outermost first, following the \<open>child\<close> entries.\<close>

fun levels :: "json \<Rightarrow> int list" where
  "levels (JObj kvs) =
     (case map_of kvs ''level'' of Some (JInt l) \<Rightarrow> [l] | _ \<Rightarrow> [])
     @ concat (map (\<lambda>kv. if fst kv = ''child'' then levels (snd kv) else []) kvs)"
| "levels j = []"

section \<open>Concurrent connection simulation: \<open>/stress/connections/<int:count>\<close>\<close>

text \<open>
  \<open>connection_simulation\<close> of \<open>stress_tests.py\<close>. The route converter \<open>int\<close> matches
  digits only, so the count is a natural number; the clamped count is written \<open>cnt\<close>.
  The loop \<open>for i in range(count)\<close> starts one thread per id, in the order of the ids.
  The threads then run side by side, and each appends one entry to the shared list when
  its sleep is over; \<open>join\<close> on every thread waits until all have done so.
  \<open>run_threads\<close> is that phase: while a thread is running, the scheduler picks the one
  that finishes next. \<open>sched\<close> lists its choices, each an index into the list of the
  threads still running (taken modulo its length; the first thread once the choices are
  used up), so every order of finishing is the run of some \<open>sched\<close>. \<open>dur i\<close> is the
  time thread \<open>i\<close> measured, and the \<open>k\<close>-th thread to finish takes the \<open>k\<close>-th
  reading of the clock. \<open>sorted\<close> is stable, as \<open>sort_key\<close> is. The sum of no durations
  is the integer 0, and \<open>0 / 0\<close> raises.
\<close>

definition simulate_connection :: "(nat \<Rightarrow> string) \<Rightarrow> (nat \<Rightarrow> real) \<Rightarrow> nat \<times> nat \<Rightarrow> json" where
  "simulate_connection now dur p =
     (case p of (k, conn_id) \<Rightarrow>
        JObj [(''connection_id'', JInt (int conn_id)),
              (''duration'', JFloat (Finite (dur conn_id))),
              (''timestamp'', JStr (now k @ ''Z''))])"

function run_threads ::
  "(nat \<Rightarrow> string) \<Rightarrow> (nat \<Rightarrow> real) \<Rightarrow> nat list \<Rightarrow> nat list \<Rightarrow> json list \<Rightarrow> json list" where
  "run_threads now dur sched running results =
     (if running = [] then results
      else
        let j = (case sched of [] \<Rightarrow> 0 | c # cs \<Rightarrow> c mod length running);
            conn_id = running ! j
        in run_threads now dur (tl sched) (take j running @ drop (Suc j) running)
             (results @ [simulate_connection now dur (length results, conn_id)]))"
  by pat_completeness auto
termination
proof (relation "measure (\<lambda>(now, dur, sched, running, results). length running)")
  fix now :: "nat \<Rightarrow> string" and dur :: "nat \<Rightarrow> real"
    and sched running :: "nat list" and results :: "json list" and j conn_id :: nat
  assume run: "running \<noteq> []"
    and j: "j = (case sched of [] \<Rightarrow> 0 | c # cs \<Rightarrow> c mod length running)"
  from run j have "j < length running"
    by (cases sched) simp_all
  then show "((now, dur, tl sched, take j running @ drop (Suc j) running,
                results @ [simulate_connection now dur (length results, conn_id)]),
              (now, dur, sched, running, results))
             \<in> measure (\<lambda>(now, dur, sched, running, results). length running)"
    by simp
qed simp

declare run_threads.simps [simp del]

definition connection_id :: "json \<Rightarrow> int" where
  "connection_id x = (case field ''connection_id'' x of Some (JInt i) \<Rightarrow> i | _ \<Rightarrow> 0)"

definition duration :: "json \<Rightarrow> real" where
  "duration x = (case field ''duration'' x of Some (JFloat (Finite d)) \<Rightarrow> d | _ \<Rightarrow> 0)"

definition connection_simulation ::
  "(nat \<Rightarrow> string) \<Rightarrow> (nat \<Rightarrow> real) \<Rightarrow> nat list \<Rightarrow> nat \<Rightarrow> error + response" where
  "connection_simulation now dur sched count0 =
     (let cnt = min count0 50;
          threads = [0..<cnt];
          results = run_threads now dur sched threads [];
          sorted_results = sort_key connection_id results
      in if length results = 0 then Inl ZeroDivisionError
         else
           Inr \<lparr>status = 200,
                body = JObj [(''simulated_connections'', JInt (int cnt)),
                             (''results'', JList sorted_results),
                             (''average_duration'',
                                JFloat (Finite (sum_list (map duration results)
                                                 / real (length results)))),
                             (''timestamp'', JStr (now (length results) @ ''Z''))]\<rparr>)"

section \<open>Reference shapes and sample inputs\<close>

text \<open>
  The pacing the specification describes: a sleep between consecutive emissions and
  none after the last.
\<close>

fun spec_paced :: "piece list list \<Rightarrow> pyfloat \<Rightarrow> effect list" where
  "spec_paced [] d = []"
| "spec_paced [y] d = [Yield y]"
| "spec_paced (y # y' # ys) d = Yield y # Sleep d # spec_paced (y' # ys) d"

text \<open>The text of chunk \<open>i\<close> of the JSON stream: \<open>json.dumps(chunk_data) + "\n"\<close>.\<close>

definition chunk_line :: "(nat \<Rightarrow> string) \<Rightarrow> int \<Rightarrow> int \<Rightarrow> piece list" where
  "chunk_line now chunks i = [Dumps (chunk_data now chunks i), Lit [CHR 0x0A]]"

text \<open>A clock and a random source for evaluating the handlers on concrete requests.\<close>

definition sample_clock :: "nat \<Rightarrow> string" where
  "sample_clock k = ''2024-01-01T00:00:0'' @ str_nat k"

definition sample_draws :: "nat \<Rightarrow> int" where
  "sample_draws k = 1 + int ((37 * k + 11) mod 100)"

text \<open>A request that asks for more than every documented maximum.\<close>

definition big_request :: args where
  "big_request = [(''chunks'', ''500''), (''delay'', ''9.5''), (''events'', ''500''),
                  (''interval'', ''9.5''), (''duration'', ''1000'')]"

section \<open>Properties\<close>

subsection \<open>The range of a double, for evaluation\<close>

text \<open>
  A value that is zero or lies between \<open>10^-12\<close> and \<open>10^12\<close> in magnitude is within
  the range of a double; testing that first spares the two large powers when a request
  is evaluated.
\<close>

lemma binary64_code [code]:
  "binary64 v =
     (if v = 0 \<or> (1 \<le> \<bar>v\<bar> * 1000000000000 \<and> \<bar>v\<bar> \<le> 1000000000000) then Finite v
      else if 2 ^ 1024 - 2 ^ 970 \<le> \<bar>v\<bar> then (if 0 < v then PosInf else NegInf)
      else if \<bar>v\<bar> * 2 ^ 1075 \<le> 1 then Finite 0
      else Finite v)"
proof -
  have hi: "(1000000000000::real) < 2 ^ 1024 - 2 ^ 970"
    by simp
  have lo: "(1000000000000::real) < 2 ^ 1075"
    by simp
  have small: "\<not> \<bar>v\<bar> * 2 ^ 1075 \<le> 1" if "1 \<le> \<bar>v\<bar> * 1000000000000"
  proof -
    have "\<bar>v\<bar> * 1000000000000 \<le> \<bar>v\<bar> * 2 ^ 1075"
      using lo by (intro mult_left_mono) simp_all
    moreover have "0 < \<bar>v\<bar>" using that by (cases "v = 0") simp_all
    then have "\<bar>v\<bar> * 1000000000000 < \<bar>v\<bar> * 2 ^ 1075"
      using lo by simp
    ultimately show ?thesis using that by linarith
  qed
  show ?thesis
    using hi small by (auto simp: binary64_def)
qed

subsection \<open>Random failure injection\<close>

lemma clamp_probability_cases:
  "clamp_probability p =
     (case p of
        Finite x \<Rightarrow> Finite (max 0 (min 1 x))
      | PosInf \<Rightarrow> Finite 1
      | NegInf \<Rightarrow> Finite 0
      | NaN \<Rightarrow> Finite 1)"
  by (cases p) (auto simp: clamp_probability_def py_min_def py_max_def)

text \<open>
  C1. The probability is clamped to \<open>[0,1]\<close>: a finite value \<open>x\<close> becomes
  \<open>max(0, min(1, x))\<close>, plus infinity and NaN become 1, minus infinity becomes 0. For
  every draw \<open>d\<close> in \<open>[0,1)\<close> the outcome is the failure response (status 500 with
  the structured error body) exactly when \<open>d\<close> is below the clamped probability, and
  the success response (status 200) otherwise; both carry the clamped probability.
  With probability 0 every draw succeeds, with probability 1 every draw fails.
\<close>

theorem random_failure_outcome:
  assumes "0 \<le> d" and "d < 1"
  shows "clamp_probability p =
           (case p of
              Finite x \<Rightarrow> Finite (max 0 (min 1 x))
            | PosInf \<Rightarrow> Finite 1
            | NegInf \<Rightarrow> Finite 0
            | NaN \<Rightarrow> Finite 1)
         \<and> (\<exists>c. clamp_probability p = Finite c \<and> 0 \<le> c \<and> c \<le> 1
               \<and> (d < c \<longrightarrow> random_failure now d p =
                     \<lparr>status = 500,
                      body = JObj [(''error'', JStr ''Simulated failure''),
                                   (''probability'', JFloat (Finite c)),
                                   (''message'', JStr ''This endpoint randomly failed''),
                                   (''timestamp'', JStr (now 0 @ ''Z''))]\<rparr>)
               \<and> (\<not> d < c \<longrightarrow> random_failure now d p =
                     \<lparr>status = 200,
                      body = JObj [(''success'', JBool True),
                                   (''probability'', JFloat (Finite c)),
                                   (''message'', JStr ''Request succeeded despite failure probability''),
                                   (''timestamp'', JStr (now 0 @ ''Z''))]\<rparr>))
         \<and> (p = Finite 0 \<longrightarrow> status (random_failure now d p) = 200)
         \<and> (p = Finite 1 \<longrightarrow> status (random_failure now d p) = 500)"
proof -
  note eq = clamp_probability_cases [of p]
  obtain c where c: "clamp_probability p = Finite c" "0 \<le> c" "c \<le> 1"
    using eq by (cases p) auto
  have zero: "p = Finite 0 \<Longrightarrow> c = 0" and one: "p = Finite 1 \<Longrightarrow> c = 1"
    using c(1) eq by simp_all
  have outcome: "\<exists>c. clamp_probability p = Finite c \<and> 0 \<le> c \<and> c \<le> 1
               \<and> (d < c \<longrightarrow> random_failure now d p =
                     \<lparr>status = 500,
                      body = JObj [(''error'', JStr ''Simulated failure''),
                                   (''probability'', JFloat (Finite c)),
                                   (''message'', JStr ''This endpoint randomly failed''),
                                   (''timestamp'', JStr (now 0 @ ''Z''))]\<rparr>)
               \<and> (\<not> d < c \<longrightarrow> random_failure now d p =
                     \<lparr>status = 200,
                      body = JObj [(''success'', JBool True),
                                   (''probability'', JFloat (Finite c)),
                                   (''message'', JStr ''Request succeeded despite failure probability''),
                                   (''timestamp'', JStr (now 0 @ ''Z''))]\<rparr>)"
    using c by (intro exI [of _ c]) (simp add: random_failure_def)
  have "p = Finite 0 \<Longrightarrow> status (random_failure now d p) = 200"
    using c(1) zero assms by (simp add: random_failure_def)
  moreover have "p = Finite 1 \<Longrightarrow> status (random_failure now d p) = 500"
    using c(1) one assms by (simp add: random_failure_def)
  ultimately show ?thesis
    using eq outcome by blast
qed

theorem random_failure_outcome_witness:
  "clamp_probability (Finite (5/2)) = Finite 1
   \<and> status (random_failure sample_clock (3/4) (Finite (5/2))) = 500
   \<and> field ''probability'' (body (random_failure sample_clock (3/4) (Finite (5/2))))
        = Some (JFloat (Finite 1))
   \<and> clamp_probability (Finite (1/2)) = Finite (1/2)
   \<and> status (random_failure sample_clock (1/4) (Finite (1/2))) = 500
   \<and> status (random_failure sample_clock (3/4) (Finite (1/2))) = 200
   \<and> status (random_failure sample_clock 0 (Finite 0)) = 200
   \<and> status (random_failure sample_clock (3/4) (Finite 1)) = 500"
proof -
  let ?now = sample_clock
  have big: "clamp_probability (Finite (5/2)) = Finite 1"
    using random_failure_outcome [of "3/4" "Finite (5/2)" ?now] by simp
  have half: "clamp_probability (Finite (1/2)) = Finite (1/2)"
    using random_failure_outcome [of "3/4" "Finite (1/2)" ?now] by simp
  have a: "random_failure ?now (3/4) (Finite (5/2)) =
             \<lparr>status = 500,
              body = JObj [(''error'', JStr ''Simulated failure''),
                           (''probability'', JFloat (Finite 1)),
                           (''message'', JStr ''This endpoint randomly failed''),
                           (''timestamp'', JStr (?now 0 @ ''Z''))]\<rparr>"
    using random_failure_outcome [of "3/4" "Finite (5/2)" ?now] big by auto
  have b: "status (random_failure ?now (1/4) (Finite (1/2))) = 500"
    using random_failure_outcome [of "1/4" "Finite (1/2)" ?now] half by auto
  have c: "status (random_failure ?now (3/4) (Finite (1/2))) = 200"
    using random_failure_outcome [of "3/4" "Finite (1/2)" ?now] half by auto
  have d: "status (random_failure ?now 0 (Finite 0)) = 200"
    using random_failure_outcome [of 0 "Finite 0" ?now] by auto
  have e: "status (random_failure ?now (3/4) (Finite 1)) = 500"
    using random_failure_outcome [of "3/4" "Finite 1" ?now] by auto
  show ?thesis using big half a b c d e by simp
qed

subsection \<open>Paced streams\<close>

lemma yields_paced: "yields (spec_paced ys d) = ys"
  by (induction ys d rule: spec_paced.induct) simp_all

lemma sleeps_paced: "sleeps (spec_paced ys d) = replicate (length ys - 1) d"
  by (induction ys d rule: spec_paced.induct) simp_all

lemma paced_Cons: "spec_paced (y # ys) d = Yield y # (if ys = [] then [] else Sleep d # spec_paced ys d)"
  by (cases ys) simp_all

lemma paced_Nil: "spec_paced ys d = [] \<longleftrightarrow> ys = []"
  by (cases ys) (simp_all add: paced_Cons)

lemma paced_last: "ys \<noteq> [] \<Longrightarrow> last (spec_paced ys d) = Yield (last ys)"
  by (induction ys) (simp_all add: paced_Cons paced_Nil)

lemma length_py_range: "length (py_range n) = nat n"
  by (simp add: py_range_def)

lemma generate_loop_paced:
  assumes ok: "time_sleep delay = Inr () \<or> chunks \<le> 1"
  shows "generate_loop now chunks delay (map int [k..<nat chunks])
           = (spec_paced (map (chunk_line now chunks) (map int [k..<nat chunks])) delay, None)"
proof (induction "nat chunks - k" arbitrary: k)
  case 0
  then show ?case by simp
next
  case (Suc m)
  then have lt: "k < nat chunks" by linarith
  then have split: "[k..<nat chunks] = k # [Suc k..<nat chunks]"
    by (simp add: upt_conv_Cons)
  have ih: "generate_loop now chunks delay (map int [Suc k..<nat chunks])
           = (spec_paced (map (chunk_line now chunks) (map int [Suc k..<nat chunks])) delay, None)"
    using Suc by (intro Suc.hyps(1)) linarith
  have more: "int k < chunks - 1 \<longleftrightarrow> [Suc k..<nat chunks] \<noteq> []"
    using lt by auto
  show ?case
  proof (cases "int k < chunks - 1")
    case True
    then have "time_sleep delay = Inr ()" using ok lt by linarith
    then show ?thesis
      using True more ih by (simp add: split paced_Cons chunk_line_def)
  next
    case False
    then show ?thesis
      using more ih by (simp add: split paced_Cons chunk_line_def)
  qed
qed

lemma generate_paced:
  assumes "time_sleep delay = Inr () \<or> chunks \<le> 1"
  shows "generate now chunks delay = (spec_paced (map (chunk_line now chunks) (py_range chunks)) delay, None)"
  using generate_loop_paced [OF assms, of now 0] by (simp add: generate_def py_range_def)

lemma chunk_data_fields:
  "field ''chunk'' (chunk_data now chunks i) = Some (JInt (i + 1))"
  "field ''total_chunks'' (chunk_data now chunks i) = Some (JInt chunks)"
  "field ''timestamp'' (chunk_data now chunks i) = Some (JStr (now (nat i) @ ''Z''))"
  "field ''data'' (chunk_data now chunks i)
     = Some (JStr (''This is chunk '' @ str_int (i + 1) @ '' of '' @ str_int chunks))"
  by (simp_all add: chunk_data_def)

text \<open>
  C2 (as the code has it). For a request to \<open>/advanced/streaming\<close> whose parameters
  parse, with clamped chunk count \<open>N\<close> and a clamped delay that \<open>time.sleep\<close> accepts
  (or \<open>N \<le> 1\<close>, where no sleep is attempted): the generator ends without an exception;
  it emits exactly \<open>max(N, 0)\<close> newline-terminated JSON objects, the \<open>k\<close>-th (from 1)
  carrying index \<open>k\<close>, the total \<open>N\<close>, a timestamp and the descriptive text; and it
  sleeps the clamped delay once between each two consecutive chunks and never after
  the last one, \<open>max(N - 1, 0)\<close> sleeps in all.
\<close>

theorem streaming_paced_chunks:
  assumes params: "streaming_params a = Inr (N, d)"
      and ok: "time_sleep d = Inr () \<or> N \<le> 1"
  shows "\<exists>s. streaming_response now a = Inr s \<and> fault s = None
           \<and> trace s = spec_paced (map (chunk_line now N) (py_range N)) d
           \<and> yields (trace s) = map (chunk_line now N) (py_range N)
           \<and> length (yields (trace s)) = nat N
           \<and> (\<forall>k < nat N. \<exists>j. yields (trace s) ! k = [Dumps j, Lit [CHR 0x0A]]
                  \<and> field ''chunk'' j = Some (JInt (int k + 1))
                  \<and> field ''total_chunks'' j = Some (JInt N)
                  \<and> field ''timestamp'' j = Some (JStr (now k @ ''Z''))
                  \<and> field ''data'' j
                       = Some (JStr (''This is chunk '' @ str_int (int k + 1) @ '' of '' @ str_int N)))
           \<and> sleeps (trace s) = replicate (nat N - 1) d
           \<and> (0 < N \<longrightarrow> last (trace s) = Yield (chunk_line now N (N - 1)))"
proof -
  let ?tr = "spec_paced (map (chunk_line now N) (py_range N)) d"
  let ?s = "\<lparr>mimetype = ''application/json'', headers = [], trace = ?tr, fault = None\<rparr>"
  have run: "streaming_response now a = Inr ?s"
    using params generate_paced [OF ok, of now] by (simp add: streaming_response_def)
  have nth: "\<And>k. k < nat N \<Longrightarrow> map (chunk_line now N) (py_range N) ! k = chunk_line now N (int k)"
    by (simp add: py_range_def)
  have fields: "\<forall>k < nat N. \<exists>j. yields ?tr ! k = [Dumps j, Lit [CHR 0x0A]]
                  \<and> field ''chunk'' j = Some (JInt (int k + 1))
                  \<and> field ''total_chunks'' j = Some (JInt N)
                  \<and> field ''timestamp'' j = Some (JStr (now k @ ''Z''))
                  \<and> field ''data'' j
                       = Some (JStr (''This is chunk '' @ str_int (int k + 1) @ '' of '' @ str_int N))"
    using nth by (simp add: yields_paced chunk_line_def chunk_data_fields)
  have lastc: "0 < N \<Longrightarrow> last ?tr = Yield (chunk_line now N (N - 1))"
  proof -
    assume pos: "0 < N"
    then have ne: "py_range N \<noteq> []" by (simp add: py_range_def)
    have "last (py_range N) = N - 1"
      using pos by (simp add: py_range_def last_map nat_diff_distrib')
    then show ?thesis
      using ne by (simp add: paced_last last_map)
  qed
  show ?thesis
    using run fields lastc
    by (intro exI [of _ ?s]) (simp add: yields_paced sleeps_paced length_py_range)
qed


theorem streaming_paced_chunks_witness:
  "\<exists>s. streaming_response sample_clock [(''chunks'', ''3''), (''delay'', ''0.25'')] = Inr s
        \<and> fault s = None \<and> length (yields (trace s)) = 3
        \<and> sleeps (trace s) = [Finite (1/4), Finite (1/4)]"
proof -
  have p: "streaming_params [(''chunks'', ''3''), (''delay'', ''0.25'')] = Inr (3, Finite (1/4))"
    by code_simp
  have ok: "time_sleep (Finite (1/4)) = Inr () \<or> (3::int) \<le> 1"
    by simp
  from streaming_paced_chunks [OF p ok, of sample_clock]
  obtain s where "streaming_response sample_clock [(''chunks'', ''3''), (''delay'', ''0.25'')] = Inr s"
    and "fault s = None" and "length (yields (trace s)) = nat 3"
    and "sleeps (trace s) = replicate (nat 3 - 1) (Finite (1/4))"
    by blast
  then show ?thesis
    by (intro exI [of _ s]) (simp add: numeral_2_eq_2)
qed

text \<open>
  Without those conditions the statement fails: where the clamped count is not positive
  (the count has no lower clamp, and \<open>range\<close> of a negative number is empty), and
  where the delay is negative: \<open>time.sleep\<close> raises after the first chunk and the
  stream ends there.
\<close>

theorem streaming_chunk_count_counterexample:
  "streaming_params [(''chunks'', ''-2'')] = Inr (- 2, Finite (1/2))
   \<and> streaming_response sample_clock [(''chunks'', ''-2'')]
       = Inr \<lparr>mimetype = ''application/json'', headers = [], trace = [], fault = None\<rparr>
   \<and> streaming_params [(''chunks'', ''3''), (''delay'', ''-1'')] = Inr (3, Finite (- 1))
   \<and> streaming_response sample_clock [(''chunks'', ''3''), (''delay'', ''-1'')]
       = Inr \<lparr>mimetype = ''application/json'', headers = [],
              trace = [Yield (chunk_line sample_clock 3 0)], fault = Some ValueError\<rparr>"
  by code_simp


subsection \<open>Server-sent events\<close>

lemma event_stream_loop_paced:
  assumes ok: "time_sleep interval = Inr () \<or> events \<le> 1"
  shows "event_stream_loop now rnd events interval (map int [k..<nat events])
           = (spec_paced (map (\<lambda>i. data_frame (event_data now rnd events i)) (map int [k..<nat events]))
                interval, None)"
proof (induction "nat events - k" arbitrary: k)
  case 0
  then show ?case by simp
next
  case (Suc m)
  then have lt: "k < nat events" by linarith
  then have split: "[k..<nat events] = k # [Suc k..<nat events]"
    by (simp add: upt_conv_Cons)
  have ih: "event_stream_loop now rnd events interval (map int [Suc k..<nat events])
           = (spec_paced (map (\<lambda>i. data_frame (event_data now rnd events i))
                      (map int [Suc k..<nat events])) interval, None)"
    using Suc by (intro Suc.hyps(1)) linarith
  have more: "int k < events - 1 \<longleftrightarrow> [Suc k..<nat events] \<noteq> []"
    using lt by auto
  from ok lt have "int k < events - 1 \<Longrightarrow> time_sleep interval = Inr ()"
    by linarith
  with more ih show ?case
    by (cases "int k < events - 1") (simp_all add: split paced_Cons)
qed

lemma event_stream_paced:
  assumes "time_sleep interval = Inr () \<or> events \<le> 1"
  shows "event_stream now rnd events interval
           = (spec_paced (map (\<lambda>i. data_frame (event_data now rnd events i)) (py_range events)) interval
                @ [Yield complete_frame], None)"
  using event_stream_loop_paced [OF assms, of now rnd 0]
  by (simp add: event_stream_def py_range_def)

lemma complete_frame_not_data: "complete_frame \<noteq> data_frame j"
  by (simp add: complete_frame_def data_frame_def)

text \<open>
  C5 (as the code has it). For a request to \<open>/advanced/sse\<close> whose parameters parse,
  with clamped event count \<open>N\<close> and a clamped interval that \<open>time.sleep\<close> accepts (or
  \<open>N \<le> 1\<close>): the stream ends without an exception and consists of exactly
  \<open>max(N, 0)\<close> data frames followed by the completion frame, which occurs exactly once
  and is the last thing emitted.
\<close>

theorem sse_frames_then_complete:
  assumes params: "sse_params a = Inr (N, d)"
      and ok: "time_sleep d = Inr () \<or> N \<le> 1"
  shows "\<exists>s. server_sent_events now rnd a = Inr s \<and> fault s = None
           \<and> yields (trace s)
               = map (\<lambda>i. data_frame (event_data now rnd N i)) (py_range N) @ [complete_frame]
           \<and> length (map (\<lambda>i. data_frame (event_data now rnd N i)) (py_range N)) = nat N
           \<and> length (yields (trace s)) = nat N + 1
           \<and> complete_frame \<notin> set (map (\<lambda>i. data_frame (event_data now rnd N i)) (py_range N))
           \<and> count_list (yields (trace s)) complete_frame = 1
           \<and> last (trace s) = Yield complete_frame"
proof -
  let ?frames = "map (\<lambda>i. data_frame (event_data now rnd N i)) (py_range N)"
  let ?tr = "spec_paced ?frames d @ [Yield complete_frame]"
  let ?s = "\<lparr>mimetype = ''text/event-stream'',
             headers = [(''Cache-Control'', ''no-cache''), (''Connection'', ''keep-alive'')],
             trace = ?tr, fault = None\<rparr>"
  have run: "server_sent_events now rnd a = Inr ?s"
    using params event_stream_paced [OF ok, of now rnd] by (simp add: server_sent_events_def)
  have ys: "yields ?tr = ?frames @ [complete_frame]"
  proof -
    have "yields (xs @ [Yield c]) = yields xs @ [c]" for xs c
      by (induction xs rule: yields.induct) simp_all
    then show ?thesis by (simp add: yields_paced)
  qed
  have notin: "complete_frame \<notin> set ?frames"
    using complete_frame_not_data by auto
  then have "count_list ?frames complete_frame = 0"
    by (simp add: count_list_0_iff)
  then have once: "count_list (?frames @ [complete_frame]) complete_frame = 1"
    by simp
  show ?thesis
    using run ys notin once by (intro exI [of _ ?s]) (simp add: length_py_range)
qed


theorem sse_frames_then_complete_witness:
  "(\<exists>s. server_sent_events sample_clock sample_draws [(''events'', ''0'')] = Inr s
        \<and> fault s = None \<and> yields (trace s) = [complete_frame])
   \<and> (\<exists>s. server_sent_events sample_clock sample_draws
               [(''events'', ''3''), (''interval'', ''0.5'')] = Inr s
        \<and> fault s = None
        \<and> yields (trace s)
            = [data_frame (event_data sample_clock sample_draws 3 0),
               data_frame (event_data sample_clock sample_draws 3 1),
               data_frame (event_data sample_clock sample_draws 3 2),
               complete_frame]
        \<and> count_list (yields (trace s)) complete_frame = 1
        \<and> last (trace s) = Yield complete_frame)"
proof -
  have p: "sse_params [(''events'', ''0'')] = Inr (0, Finite 1)"
    by code_simp
  have ok: "time_sleep (Finite 1) = Inr () \<or> (0::int) \<le> 1"
    by simp
  have q: "sse_params [(''events'', ''3''), (''interval'', ''0.5'')] = Inr (3, Finite (1/2))"
    by code_simp
  have ok': "time_sleep (Finite (1/2)) = Inr () \<or> (3::int) \<le> 1"
    by simp
  have range: "py_range 3 = [0, 1, 2]"
    by code_simp
  from sse_frames_then_complete [OF p ok, of sample_clock sample_draws]
  have none: "\<exists>s. server_sent_events sample_clock sample_draws [(''events'', ''0'')] = Inr s
        \<and> fault s = None \<and> yields (trace s) = [complete_frame]"
    by (auto simp: py_range_def)
  from sse_frames_then_complete [OF q ok', of sample_clock sample_draws]
  obtain s where s: "server_sent_events sample_clock sample_draws
                       [(''events'', ''3''), (''interval'', ''0.5'')] = Inr s"
    and "fault s = None"
    and "yields (trace s)
           = map (\<lambda>i. data_frame (event_data sample_clock sample_draws 3 i)) (py_range 3)
             @ [complete_frame]"
    and "count_list (yields (trace s)) complete_frame = 1"
    and "last (trace s) = Yield complete_frame"
    by blast
  then have "\<exists>s. server_sent_events sample_clock sample_draws
               [(''events'', ''3''), (''interval'', ''0.5'')] = Inr s
        \<and> fault s = None
        \<and> yields (trace s)
            = [data_frame (event_data sample_clock sample_draws 3 0),
               data_frame (event_data sample_clock sample_draws 3 1),
               data_frame (event_data sample_clock sample_draws 3 2),
               complete_frame]
        \<and> count_list (yields (trace s)) complete_frame = 1
        \<and> last (trace s) = Yield complete_frame"
    by (intro exI [of _ s]) (simp add: range)
  with none show ?thesis by blast
qed

text \<open>
  Without those conditions the statement fails: for a negative event count (no data
  frame, not \<open>N\<close> of them) and for a negative interval, where \<open>time.sleep\<close> raises
  after the first data frame and the completion frame is never reached.
\<close>

theorem sse_frame_count_counterexample:
  "sse_params [(''events'', ''-2'')] = Inr (- 2, Finite 1)
   \<and> server_sent_events sample_clock sample_draws [(''events'', ''-2'')]
       = Inr \<lparr>mimetype = ''text/event-stream'',
              headers = [(''Cache-Control'', ''no-cache''), (''Connection'', ''keep-alive'')],
              trace = [Yield complete_frame], fault = None\<rparr>
   \<and> sse_params [(''events'', ''2''), (''interval'', ''-1'')] = Inr (2, Finite (- 1))
   \<and> server_sent_events sample_clock sample_draws [(''events'', ''2''), (''interval'', ''-1'')]
       = Inr \<lparr>mimetype = ''text/event-stream'',
              headers = [(''Cache-Control'', ''no-cache''), (''Connection'', ''keep-alive'')],
              trace = [Yield (data_frame (event_data sample_clock sample_draws 2 0))],
              fault = Some ValueError\<rparr>"
  by code_simp



subsection \<open>Clamped parameters\<close>

lemma py_min_upper: "\<not> float_lt (Finite u) (py_min d (Finite u))"
  by (cases d) (simp_all add: py_min_def)

lemma sleep_ok_bounds:
  assumes "time_sleep d = Inr ()" and "\<not> float_lt (Finite u) d"
  shows "\<exists>v. d = Finite v \<and> 0 \<le> v \<and> v \<le> u"
  using assms by (cases d) (simp_all split: if_splits)

lemma generate_loop_sleeps:
  "x \<in> set (sleeps (fst (generate_loop now chunks delay js)))
     \<Longrightarrow> x = delay \<and> time_sleep delay = Inr ()"
  by (induction js) (auto simp: Let_def split: if_splits sum.splits prod.splits)

lemma generate_loop_yields:
  "length (yields (fst (generate_loop now chunks delay js))) \<le> length js"
  by (induction js) (auto simp: Let_def split: if_splits sum.splits prod.splits)

lemma event_stream_loop_sleeps:
  "x \<in> set (sleeps (fst (event_stream_loop now rnd events interval js)))
     \<Longrightarrow> x = interval \<and> time_sleep interval = Inr ()"
  by (induction js) (auto simp: Let_def split: if_splits sum.splits prod.splits)

lemma sleeps_append: "sleeps (xs @ ys) = sleeps xs @ sleeps ys"
  by (induction xs rule: sleeps.induct) simp_all

lemma streaming_params_bounds:
  "streaming_params a = Inr (c, d) \<Longrightarrow> c \<le> 100 \<and> \<not> float_lt (Finite 5) d"
  by (auto simp: streaming_params_def py_min_upper split: sum.splits)

lemma sse_params_bounds:
  "sse_params a = Inr (n, i) \<Longrightarrow> n \<le> 50 \<and> \<not> float_lt (Finite 5) i"
  by (auto simp: sse_params_def py_min_upper split: sum.splits)

lemma streaming_response_bounds:
  assumes "streaming_response now a = Inr s"
  shows "length (yields (trace s)) \<le> 100
         \<and> (\<forall>x \<in> set (sleeps (trace s)). \<exists>v. x = Finite v \<and> 0 \<le> v \<and> v \<le> 5)"
proof -
  from assms obtain c d where p: "streaming_params a = Inr (c, d)"
    and tr: "trace s = fst (generate now c d)"
    by (auto simp: streaming_response_def split: sum.splits prod.splits)
  have "length (yields (trace s)) \<le> nat c"
    using generate_loop_yields [of now c d "py_range c"]
    by (simp add: tr generate_def length_py_range)
  moreover have "c \<le> 100" using p streaming_params_bounds by blast
  ultimately have n: "length (yields (trace s)) \<le> 100" by linarith
  have "\<exists>v. x = Finite v \<and> 0 \<le> v \<and> v \<le> 5" if "x \<in> set (sleeps (trace s))" for x
  proof -
    from that have "x = d \<and> time_sleep d = Inr ()"
      using generate_loop_sleeps by (simp add: tr generate_def)
    then show ?thesis
      using sleep_ok_bounds [of d 5] streaming_params_bounds [OF p] by simp
  qed
  with n show ?thesis by blast
qed

lemma server_sent_events_bounds:
  assumes "server_sent_events now rnd a = Inr s"
  shows "\<forall>x \<in> set (sleeps (trace s)). \<exists>v. x = Finite v \<and> 0 \<le> v \<and> v \<le> 5"
proof
  fix x assume x: "x \<in> set (sleeps (trace s))"
  from assms obtain n d where p: "sse_params a = Inr (n, d)"
    and tr: "trace s = fst (event_stream now rnd n d)"
    by (auto simp: server_sent_events_def split: sum.splits prod.splits)
  have "set (sleeps (fst (event_stream now rnd n d)))
          \<subseteq> set (sleeps (fst (event_stream_loop now rnd n d (py_range n))))"
    by (auto simp: event_stream_def sleeps_append split: prod.splits option.splits)
  with x tr have "x = d \<and> time_sleep d = Inr ()"
    using event_stream_loop_sleeps by fastforce
  then show "\<exists>v. x = Finite v \<and> 0 \<le> v \<and> v \<le> 5"
    using sleep_ok_bounds [of d 5] sse_params_bounds [OF p] by simp
qed

text \<open>
  C4 (as the code has it). Whatever the client sends, when the parameters parse: the
  chunk count used by \<open>/advanced/streaming\<close> is at most 100 and its delay is not above
  5 seconds; the event count of \<open>/advanced/sse\<close> is at most 50 and its interval not
  above 5; the duration of \<open>/realtime/feed\<close> is at most 120 and that of
  \<open>/realtime/status\<close> at most 300. The JSON stream emits at most 100 chunks, and every
  sleep that the two \<open>/advanced\<close> streams complete lasts between 0 and 5 seconds.
\<close>

theorem clamped_upper_bounds:
  "(streaming_params a = Inr (c, d) \<longrightarrow> c \<le> 100 \<and> \<not> float_lt (Finite 5) d)
   \<and> (sse_params a = Inr (n, i) \<longrightarrow> n \<le> 50 \<and> \<not> float_lt (Finite 5) i)
   \<and> (live_data_feed_duration a = Inr fd \<longrightarrow> fd \<le> 120)
   \<and> (system_status_stream_params a = Inr (si, sd) \<longrightarrow> sd \<le> 300)
   \<and> (streaming_response now a = Inr s \<longrightarrow>
         length (yields (trace s)) \<le> 100
         \<and> (\<forall>x \<in> set (sleeps (trace s)). \<exists>v. x = Finite v \<and> 0 \<le> v \<and> v \<le> 5))
   \<and> (server_sent_events now rnd a = Inr s' \<longrightarrow>
         (\<forall>x \<in> set (sleeps (trace s')). \<exists>v. x = Finite v \<and> 0 \<le> v \<and> v \<le> 5))"
proof (intro conjI impI)
  assume "live_data_feed_duration a = Inr fd"
  then show "fd \<le> 120"
    by (auto simp: live_data_feed_duration_def split: sum.splits)
next
  assume "system_status_stream_params a = Inr (si, sd)"
  then show "sd \<le> 300"
    by (auto simp: system_status_stream_params_def split: sum.splits)
qed (use streaming_params_bounds sse_params_bounds streaming_response_bounds
      server_sent_events_bounds in blast)+

theorem clamped_upper_bounds_witness:
  "streaming_params big_request = Inr (100, Finite 5)
   \<and> (100::int) \<le> 100 \<and> \<not> float_lt (Finite 5) (Finite 5)
   \<and> sse_params big_request = Inr (50, Finite 5)
   \<and> live_data_feed_duration big_request = Inr 120
   \<and> system_status_stream_params big_request = Inr (Finite (19/2), 300)
   \<and> (\<exists>s. streaming_response sample_clock [(''chunks'', ''2'')] = Inr s
         \<and> length (yields (trace s)) \<le> 100 \<and> sleeps (trace s) = [Finite (1/2)])
   \<and> (\<exists>s. server_sent_events sample_clock sample_draws [(''events'', ''2'')] = Inr s
         \<and> sleeps (trace s) = [Finite 1])"
proof -
  have p: "streaming_params big_request = Inr (100, Finite 5)"
    and q: "sse_params big_request = Inr (50, Finite 5)"
    and f: "live_data_feed_duration big_request = Inr 120"
    and t: "system_status_stream_params big_request = Inr (Finite (19/2), 300)"
    by code_simp+
  define s where "s = \<lparr>mimetype = ''application/json'', headers = [],
                        trace = [Yield (chunk_line sample_clock 2 0), Sleep (Finite (1/2)),
                                 Yield (chunk_line sample_clock 2 1)],
                        fault = None\<rparr>"
  have s: "streaming_response sample_clock [(''chunks'', ''2'')] = Inr s"
    unfolding s_def by code_simp
  have ss: "sleeps (trace s) = [Finite (1/2)]"
    by (simp add: s_def)
  define s' where "s' = \<lparr>mimetype = ''text/event-stream'',
                         headers = [(''Cache-Control'', ''no-cache''),
                                    (''Connection'', ''keep-alive'')],
                         trace = [Yield (data_frame (event_data sample_clock sample_draws 2 0)),
                                  Sleep (Finite 1),
                                  Yield (data_frame (event_data sample_clock sample_draws 2 1)),
                                  Yield complete_frame],
                         fault = None\<rparr>"
  have s': "server_sent_events sample_clock sample_draws [(''events'', ''2'')] = Inr s'"
    unfolding s'_def by code_simp
  have ss': "sleeps (trace s') = [Finite 1]"
    by (simp add: s'_def)
  from clamped_upper_bounds [of big_request 100 "Finite 5" 50 "Finite 5" 120 "Finite (19/2)" 300] p
  have top: "(100::int) \<le> 100 \<and> \<not> float_lt (Finite 5) (Finite 5)" by blast
  from clamped_upper_bounds [of "[(''chunks'', ''2'')]" _ _ _ _ _ _ _ sample_clock s] s
  have "length (yields (trace s)) \<le> 100" by blast
  then show ?thesis
    using top p q f t s ss s' ss' by blast
qed

text \<open>
  No lower bound is applied: a chunk count of 0 and a delay of \<open>-1\<close> are used as sent,
  and \<open>time.sleep\<close> rejects that delay. The interval of \<open>/realtime/status\<close>, which
  that stream sleeps after every update, has a floor of 1 second and no ceiling.
\<close>

theorem clamped_range_counterexample:
  "streaming_params [(''chunks'', ''0''), (''delay'', ''-1'')] = Inr (0, Finite (- 1))
   \<and> \<not> (1 \<le> (0::int)) \<and> float_lt (Finite (- 1)) (Finite 0)
   \<and> time_sleep (Finite (- 1)) = Inl ValueError
   \<and> system_status_stream_params [(''interval'', ''1e9'')] = Inr (Finite 1000000000, 60)"
  by code_simp

subsection \<open>Recursive cascade\<close>

lemma cascade_function_base:
  "cascade_function now 0 = (JObj [(''level'', JInt 0), (''message'', JStr ''Base case reached'')], [])"
  by (simp add: cascade_function.simps)

lemma cascade_function_step:
  "cascade_function now (int (Suc n)) =
     (JObj [(''level'', JInt (int (Suc n))),
            (''message'', JStr (''Processing level '' @ str_int (int (Suc n)))),
            (''child'', fst (cascade_function now (int n))),
            (''timestamp'', JStr (now n @ ''Z''))],
      Sleep (Finite (1/10)) # snd (cascade_function now (int n)))"
  by (subst cascade_function.simps) (simp split: prod.splits)

lemma cascade_levels:
  "levels (fst (cascade_function now (int n))) = rev (map int [0..<Suc n])"
proof (induction n)
  case 0
  show ?case using cascade_function_base [of now] by simp
next
  case (Suc n)
  then show ?case by (simp add: cascade_function_step del: of_nat_Suc)
qed

lemma cascade_sleeps:
  "snd (cascade_function now (int n)) = replicate n (Sleep (Finite (1/10)))"
proof (induction n)
  case 0
  show ?case using cascade_function_base [of now] by simp
next
  case (Suc n)
  then show ?case by (simp add: cascade_function_step del: of_nat_Suc)
qed

lemma cascade_requests_result:
  "field ''cascade_result'' (body (fst (cascade_requests now elapsed depth)))
     = Some (fst (cascade_function now (int (min depth 10))))"
  "field ''requested_depth'' (body (fst (cascade_requests now elapsed depth)))
     = Some (JInt (int (min depth 10)))"
  "status (fst (cascade_requests now elapsed depth)) = 200"
  "snd (cascade_requests now elapsed depth) = snd (cascade_function now (int (min depth 10)))"
proof -
  have clamp: "min (int depth) 10 = int (min depth 10)"
    by linarith
  show "field ''cascade_result'' (body (fst (cascade_requests now elapsed depth)))
     = Some (fst (cascade_function now (int (min depth 10))))"
    and "field ''requested_depth'' (body (fst (cascade_requests now elapsed depth)))
     = Some (JInt (int (min depth 10)))"
    and "status (fst (cascade_requests now elapsed depth)) = 200"
    and "snd (cascade_requests now elapsed depth) = snd (cascade_function now (int (min depth 10)))"
    unfolding cascade_requests_def Let_def clamp by (simp_all split: prod.splits)
qed

text \<open>
  C6. The depth is clamped to at most 10; the recursion ends at the level-0 base case
  (\<open>cascade_function\<close> is total); the nested trace returned has exactly
  \<open>min(depth, 10) + 1\<close> levels, numbered from the clamped depth down to 0, and one
  sleep was made per level above 0. Depth 15 gives the 11 levels 10 down to 0, and
  depth 0 gives the base case alone, with no \<open>child\<close>.
\<close>

theorem cascade_trace_levels:
  "\<exists>res. field ''cascade_result'' (body (fst (cascade_requests now elapsed depth))) = Some res
      \<and> field ''requested_depth'' (body (fst (cascade_requests now elapsed depth)))
           = Some (JInt (int (min depth 10)))
      \<and> min depth 10 \<le> 10
      \<and> levels res = rev (map int [0..<Suc (min depth 10)])
      \<and> length (levels res) = min depth 10 + 1
      \<and> last (levels res) = 0
      \<and> snd (cascade_requests now elapsed depth) = replicate (min depth 10) (Sleep (Finite (1/10)))"
proof -
  let ?res = "fst (cascade_function now (int (min depth 10)))"
  have lv: "levels ?res = rev (map int [0..<Suc (min depth 10)])"
    by (rule cascade_levels)
  have "last (rev (map int [0..<Suc (min depth 10)])) = 0"
    by (simp add: last_rev hd_map upt_conv_Cons del: upt_Suc)
  with lv show ?thesis
    by (intro exI [of _ ?res]) (simp add: cascade_requests_result cascade_sleeps)
qed

theorem cascade_trace_levels_witness:
  "(\<exists>res. field ''cascade_result'' (body (fst (cascade_requests sample_clock 1 15))) = Some res
       \<and> field ''requested_depth'' (body (fst (cascade_requests sample_clock 1 15))) = Some (JInt 10)
       \<and> levels res = [10, 9, 8, 7, 6, 5, 4, 3, 2, 1, 0] \<and> length (levels res) = 11)
   \<and> (\<exists>res. field ''cascade_result'' (body (fst (cascade_requests sample_clock 1 0))) = Some res
       \<and> levels res = [0]
       \<and> res = JObj [(''level'', JInt 0), (''message'', JStr ''Base case reached'')])"
proof -
  have up: "rev (map int [0..<Suc 10]) = [10, 9, 8, 7, 6, 5, 4, 3, 2, 1, 0]"
    by code_simp
  have base: "field ''cascade_result'' (body (fst (cascade_requests sample_clock 1 0)))
                = Some (JObj [(''level'', JInt 0), (''message'', JStr ''Base case reached'')])"
    by (simp add: cascade_requests_result cascade_function_base)
  have deep: "\<exists>res. field ''cascade_result'' (body (fst (cascade_requests sample_clock 1 15))) = Some res
       \<and> field ''requested_depth'' (body (fst (cascade_requests sample_clock 1 15))) = Some (JInt 10)
       \<and> levels res = [10, 9, 8, 7, 6, 5, 4, 3, 2, 1, 0] \<and> length (levels res) = 11"
    using cascade_trace_levels [of sample_clock 1 15] up by auto
  have flat: "\<exists>res. field ''cascade_result'' (body (fst (cascade_requests sample_clock 1 0))) = Some res
       \<and> levels res = [0]
       \<and> res = JObj [(''level'', JInt 0), (''message'', JStr ''Base case reached'')]"
    using cascade_trace_levels [of sample_clock 1 0] base by auto
  from deep flat show ?thesis by blast
qed


subsection \<open>Connection simulation\<close>

lemma connection_id_simulate [simp]:
  "connection_id (simulate_connection now dur (k, c)) = int c"
  by (simp add: connection_id_def simulate_connection_def)

lemma duration_simulate [simp]:
  "duration (simulate_connection now dur (k, c)) = dur c"
  by (simp add: duration_def simulate_connection_def)

lemma run_threads_Nil [simp]: "run_threads now dur sched [] results = results"
  by (simp add: run_threads.simps)

lemma mset_without_nth:
  "j < length xs \<Longrightarrow> mset (take j xs @ drop (Suc j) xs) + {#xs ! j#} = mset xs"
  using id_take_nth_drop [of j xs] by (metis add_mset_add_single mset.simps(2) mset_append union_mset_add_mset_right)

lemma run_threads_pick:
  assumes "j < length running"
  shows "run_threads now dur (j # sched) running results
           = run_threads now dur sched (take j running @ drop (Suc j) running)
               (results @ [simulate_connection now dur (length results, running ! j)])"
  using assms by (subst run_threads.simps) (auto simp: Let_def)

lemma run_threads_ids:
  "mset (map connection_id (run_threads now dur sched running results))
     = mset (map connection_id results) + mset (map int running)"
proof (induction now dur sched running results rule: run_threads.induct)
  case (1 now dur sched running results)
  show ?case
  proof (cases "running = []")
    case True
    then show ?thesis by simp
  next
    case False
    define j where "j = (case sched of [] \<Rightarrow> 0 | c # cs \<Rightarrow> c mod length running)"
    have j: "j < length running"
      using False by (cases sched) (simp_all add: j_def)
    have step: "run_threads now dur sched running results
        = run_threads now dur (tl sched) (take j running @ drop (Suc j) running)
            (results @ [simulate_connection now dur (length results, running ! j)])"
      using False by (subst run_threads.simps) (simp add: Let_def j_def)
    have ih: "mset (map connection_id (run_threads now dur (tl sched)
                 (take j running @ drop (Suc j) running)
                 (results @ [simulate_connection now dur (length results, running ! j)])))
          = mset (map connection_id (results @ [simulate_connection now dur (length results, running ! j)]))
            + mset (map int (take j running @ drop (Suc j) running))"
      using "1.IH" [OF False j_def refl] .
    have "mset (map int (take j running @ drop (Suc j) running)) + {#int (running ! j)#}
            = mset (map int running)"
      using mset_without_nth [OF j] by (metis image_mset_single image_mset_union mset_map)
    then show ?thesis
      unfolding step ih by (simp add: ac_simps)
  qed
qed

lemma run_threads_own_duration:
  assumes "\<forall>r \<in> set results. duration r = dur (nat (connection_id r))"
  shows "\<forall>r \<in> set (run_threads now dur sched running results).
           duration r = dur (nat (connection_id r))"
  using assms
proof (induction now dur sched running results rule: run_threads.induct)
  case (1 now dur sched running results)
  show ?case
  proof (cases "running = []")
    case True
    with "1.prems" show ?thesis by simp
  next
    case False
    define j where "j = (case sched of [] \<Rightarrow> 0 | c # cs \<Rightarrow> c mod length running)"
    have step: "run_threads now dur sched running results
        = run_threads now dur (tl sched) (take j running @ drop (Suc j) running)
            (results @ [simulate_connection now dur (length results, running ! j)])"
      using False by (subst run_threads.simps) (simp add: Let_def j_def)
    have "\<forall>r \<in> set (results @ [simulate_connection now dur (length results, running ! j)]).
            duration r = dur (nat (connection_id r))"
      using "1.prems" by simp
    then show ?thesis
      unfolding step by (rule "1.IH" [OF False j_def refl])
  qed
qed

lemma every_order_scheduled:
  "mset order = mset running \<Longrightarrow>
     \<exists>sched. map connection_id (run_threads now dur sched running results)
               = map connection_id results @ map int order"
proof (induction order arbitrary: running results)
  case Nil
  then show ?case by simp
next
  case (Cons i rest)
  then have "i \<in> set running"
    by (metis list.set_intros(1) mset_eq_setD)
  then obtain j where j: "j < length running" "running ! j = i"
    by (auto simp: in_set_conv_nth)
  let ?running = "take j running @ drop (Suc j) running"
  let ?results = "results @ [simulate_connection now dur (length results, i)]"
  have "mset ?running + {#i#} = mset rest + {#i#}"
    using mset_without_nth [OF j(1)] j(2) Cons.prems by simp
  then have "mset rest = mset ?running"
    by simp
  from Cons.IH [OF this, of ?results]
  obtain sched where "map connection_id (run_threads now dur sched ?running ?results)
                        = map connection_id ?results @ map int rest"
    by blast
  then have "map connection_id (run_threads now dur (j # sched) running results)
               = map connection_id results @ map int (i # rest)"
    using run_threads_pick [OF j(1), of now dur sched results] j(2) by simp
  then show ?case by blast
qed

lemma map_sort_key: "map f (sort_key f xs) = sort (map f xs)"
  by (rule sym, rule properties_for_sort) simp_all

lemma sorted_ids:
  assumes "mset ids = mset (map int [0..<n])"
  shows "sort ids = map int [0..<n]"
proof (rule properties_for_sort)
  show "mset (map int [0..<n]) = mset ids"
    using assms by simp
  show "sorted (map int [0..<n])"
    by (simp add: sorted_map sorted_wrt_iff_nth_less)
qed

lemma run_threads_length:
  "length (run_threads now dur sched running results) = length results + length running"
proof -
  have "size (mset (map connection_id (run_threads now dur sched running results)))
          = size (mset (map connection_id results) + mset (map int running))"
    by (simp only: run_threads_ids)
  then show ?thesis by simp
qed


lemma sorted_results_shape:
  fixes now dur sched n
  defines "results \<equiv> run_threads now dur sched [0..<n] []"
  defines "rs \<equiv> sort_key connection_id results"
  shows "length results = n"
    and "map connection_id rs = map int [0..<n]"
    and "map duration rs = map dur [0..<n]"
    and "sum_list (map duration results) = sum_list (map dur [0..<n])"
proof -
  show len: "length results = n"
    by (simp add: results_def run_threads_length)
  have "mset (map connection_id results) = mset (map int [0..<n])"
    unfolding results_def by (simp only: run_threads_ids) simp
  then show ids: "map connection_id rs = map int [0..<n]"
    unfolding rs_def by (simp only: map_sort_key sorted_ids)
  have own: "\<forall>r \<in> set results. duration r = dur (nat (connection_id r))"
    unfolding results_def by (rule run_threads_own_duration) simp
  have "map duration rs = map (\<lambda>r. dur (nat (connection_id r))) rs"
    using own by (intro map_cong) (simp_all add: rs_def)
  also have "\<dots> = map (dur \<circ> nat) (map connection_id rs)"
    by simp
  also have "\<dots> = map dur [0..<n]"
    by (simp only: ids) simp
  finally show durs: "map duration rs = map dur [0..<n]" .
  have "sum_list (map duration results) = sum_mset (mset (map duration results))"
    by (simp only: sum_mset_sum_list)
  also have "mset (map duration results) = mset (map duration rs)"
    by (simp add: rs_def)
  also have "sum_mset (mset (map duration rs)) = sum_list (map duration rs)"
    by (simp only: sum_mset_sum_list)
  finally show "sum_list (map duration results) = sum_list (map dur [0..<n])"
    by (simp only: durs)
qed

text \<open>
  C7. The specification asks, for every request to \<open>/stress/connections\<close> and every
  order in which the threads finish, for a response whose results are sorted by
  ascending connection id, one per id. The code does so for every count of at least 1:
  whatever the scheduler does, the response lists exactly one result per id of
  \<open>0 .. min(count, 50) - 1\<close>, in strictly ascending order, each with the duration of
  its own connection, and every rearrangement of the ids is the order of finishing of
  some schedule. At count 0 there is no response: the average divides by the length of
  an empty list and the handler raises ZeroDivisionError.
\<close>

theorem connection_results_sorted:
  "connection_simulation now dur sched 0 = Inl ZeroDivisionError
   \<and> (1 \<le> cnt0 \<longrightarrow>
        (\<exists>resp rs. connection_simulation now dur sched cnt0 = Inr resp
           \<and> status resp = 200
           \<and> field ''simulated_connections'' (body resp) = Some (JInt (int (min cnt0 50)))
           \<and> field ''results'' (body resp) = Some (JList rs)
           \<and> map connection_id rs = map int [0..<min cnt0 50]
           \<and> sorted_wrt (<) (map connection_id rs)
           \<and> length rs = min cnt0 50
           \<and> map duration rs = map dur [0..<min cnt0 50]
           \<and> mset rs = mset (run_threads now dur sched [0..<min cnt0 50] [])
           \<and> field ''average_duration'' (body resp)
                = Some (JFloat (Finite (sum_list (map dur [0..<min cnt0 50])
                                         / real (min cnt0 50))))))
   \<and> (\<forall>order. mset order = mset [0..<min cnt0 50] \<longrightarrow>
        (\<exists>sched'. map connection_id (run_threads now dur sched' [0..<min cnt0 50] [])
                    = map int order))"
proof (intro conjI impI allI)
  show "connection_simulation now dur sched 0 = Inl ZeroDivisionError"
    by (simp add: connection_simulation_def)
next
  fix order assume "mset order = mset [0..<min cnt0 50]"
  from every_order_scheduled [OF this, of now dur "[]"]
  show "\<exists>sched'. map connection_id (run_threads now dur sched' [0..<min cnt0 50] [])
                    = map int order"
    by simp
next
  assume pos: "1 \<le> cnt0"
  let ?n = "min cnt0 50"
  let ?results = "run_threads now dur sched [0..<?n] []"
  let ?rs = "sort_key connection_id ?results"
  note shape = sorted_results_shape [of now dur sched ?n]
  have ne: "?results \<noteq> []"
    using pos shape(1) by auto
  have strict: "sorted_wrt (<) (map int [0..<?n])"
    by (simp add: sorted_wrt_iff_nth_less)
  have "length ?rs = ?n"
    using shape(1) by simp
  then show "\<exists>resp rs. connection_simulation now dur sched cnt0 = Inr resp
           \<and> status resp = 200
           \<and> field ''simulated_connections'' (body resp) = Some (JInt (int (min cnt0 50)))
           \<and> field ''results'' (body resp) = Some (JList rs)
           \<and> map connection_id rs = map int [0..<min cnt0 50]
           \<and> sorted_wrt (<) (map connection_id rs)
           \<and> length rs = min cnt0 50
           \<and> map duration rs = map dur [0..<min cnt0 50]
           \<and> mset rs = mset (run_threads now dur sched [0..<min cnt0 50] [])
           \<and> field ''average_duration'' (body resp)
                = Some (JFloat (Finite (sum_list (map dur [0..<min cnt0 50])
                                         / real (min cnt0 50))))"
    using ne strict shape
    by (simp add: connection_simulation_def Let_def)
qed

theorem connection_results_sorted_witness:
  "connection_simulation sample_clock real [2, 0, 0] 0 = Inl ZeroDivisionError
   \<and> map connection_id (run_threads sample_clock real [2, 0, 0] [0..<3] []) = [2, 0, 1]
   \<and> (\<exists>resp rs. connection_simulation sample_clock real [2, 0, 0] 3 = Inr resp
         \<and> field ''results'' (body resp) = Some (JList rs)
         \<and> map connection_id rs = [0, 1, 2]
         \<and> map duration rs = [0, 1, 2]
         \<and> field ''average_duration'' (body resp) = Some (JFloat (Finite 1)))"
proof -
  have run: "map connection_id (run_threads sample_clock real [2, 0, 0] [0..<3] []) = [2, 0, 1]"
    by code_simp
  have ids: "map int [0..<min 3 50] = [0, 1, 2]"
    and durs: "map real [0..<min 3 50] = [0, 1, 2]"
    and avg: "sum_list (map real [0..<min 3 50]) / real (min 3 50) = 1"
    by code_simp+
  from connection_results_sorted [of sample_clock real "[2, 0, 0]" 3] ids durs avg run
  show ?thesis by auto
qed

text \<open>
  C10. With count 0 no thread is started, no result is appended, the average divides
  by the length 0 and the handler raises ZeroDivisionError instead of returning a
  response; with a count of at least 1 it returns a response.
\<close>

theorem connection_zero_count_fault:
  "(cnt0 = 0 \<longrightarrow> connection_simulation now dur sched cnt0 = Inl ZeroDivisionError)
   \<and> (1 \<le> cnt0 \<longrightarrow> (\<exists>resp. connection_simulation now dur sched cnt0 = Inr resp))"
proof -
  have "length (run_threads now dur sched [0..<min cnt0 50] []) = min cnt0 50"
    by (simp add: run_threads_length)
  then show ?thesis
    by (auto simp: connection_simulation_def Let_def)
qed

theorem connection_zero_count_fault_witness:
  "connection_simulation sample_clock real [] 0 = Inl ZeroDivisionError
   \<and> (\<exists>resp. connection_simulation sample_clock real [1, 0] 2 = Inr resp)"
  using connection_zero_count_fault [of 0 sample_clock real "[]"]
        connection_zero_count_fault [of 2 sample_clock real "[1, 0]"]
  by simp

subsection \<open>Random status selection\<close>

lemma py_int_error: "py_int s = Inl e \<Longrightarrow> e = ValueError"
  by (auto simp: py_int_def split: list.splits option.splits if_splits)

lemma py_int_abc: "py_int ''abc'' = Inl ValueError"
  by code_simp

lemma py_int_digit_limit:
  "max_str_digits < length (filter is_digit (c_strip s)) \<Longrightarrow> py_int s = Inl ValueError"
  by (auto simp: py_int_def split: list.splits option.splits)

lemma parse_codes_Inl:
  "parse_codes cs = Inl e \<Longrightarrow> e = ValueError \<and> (\<exists>c \<in> set cs. py_int (strip c) = Inl ValueError)"
proof (induction cs)
  case Nil
  then show ?case by simp
next
  case (Cons c cs)
  show ?case
  proof (cases "py_int (strip c)")
    case (Inl e')
    with Cons.prems py_int_error [of "strip c" e'] show ?thesis by auto
  next
    case (Inr n)
    with Cons show ?thesis by (auto split: sum.splits)
  qed
qed

lemma parse_codes_Inr:
  "parse_codes cs = Inr ns \<Longrightarrow> list_all2 (\<lambda>c n. py_int (strip c) = Inr n) cs ns"
  by (induction cs arbitrary: ns) (auto split: sum.splits)

lemma split_on_nonempty: "split_on sep s \<noteq> []"
  by (induction s) (auto split: list.splits)

text \<open>
  C8. \<open>/simulate/random-status\<close> always returns a response. If \<open>int\<close> rejects any
  comma-separated entry of \<open>codes\<close>, the response is status 400 with the body
  \<open>{"error": "Invalid status codes"}\<close>. Otherwise the parsed list holds, entry by
  entry and in order, the integer of each stripped entry; the code chosen is the
  element of that list at the index drawn, and it is both the status of the response
  and the \<open>status\<close> value of its body, which also lists the parsed codes.
\<close>

theorem random_status_outcome:
  "(\<exists>resp. random_status now r a = Inr resp)
   \<and> ((\<exists>c \<in> set (split_on CHR '','' (codes_param a)). py_int (strip c) = Inl ValueError)
        \<longrightarrow> random_status now r a
              = Inr \<lparr>status = 400, body = JObj [(''error'', JStr ''Invalid status codes'')]\<rparr>)
   \<and> ((\<forall>c \<in> set (split_on CHR '','' (codes_param a)). py_int (strip c) \<noteq> Inl ValueError)
        \<longrightarrow> (\<exists>codes chosen.
               list_all2 (\<lambda>c n. py_int (strip c) = Inr n)
                 (split_on CHR '','' (codes_param a)) codes
               \<and> codes \<noteq> []
               \<and> chosen = codes ! (r mod length codes)
               \<and> chosen \<in> set codes
               \<and> random_status now r a
                   = Inr \<lparr>status = chosen,
                          body = JObj [(''status'', JInt chosen),
                                       (''message'', JStr (''Randomly selected status code ''
                                                            @ str_int chosen)),
                                       (''available_codes'', JList (map JInt codes)),
                                       (''timestamp'', JStr (now 0 @ ''Z''))]\<rparr>))"
proof (cases "parse_codes (split_on CHR '','' (codes_param a))")
  case (Inl e)
  then have e: "e = ValueError"
    and bad: "\<exists>c \<in> set (split_on CHR '','' (codes_param a)). py_int (strip c) = Inl ValueError"
    using parse_codes_Inl by blast+
  from Inl e have "random_status now r a
      = Inr \<lparr>status = 400, body = JObj [(''error'', JStr ''Invalid status codes'')]\<rparr>"
    by (simp add: random_status_def)
  with bad show ?thesis by auto
next
  case (Inr codes)
  then have entries: "list_all2 (\<lambda>c n. py_int (strip c) = Inr n)
                        (split_on CHR '','' (codes_param a)) codes"
    by (rule parse_codes_Inr)
  then have "length codes = length (split_on CHR '','' (codes_param a))"
    by (simp add: list_all2_lengthD)
  then have ne: "codes \<noteq> []"
    using split_on_nonempty [of "CHR '',''" "codes_param a"] by auto
  define chosen where "chosen = codes ! (r mod length codes)"
  have mem: "chosen \<in> set codes"
    using ne by (simp add: chosen_def)
  have run: "random_status now r a
               = Inr \<lparr>status = chosen,
                      body = JObj [(''status'', JInt chosen),
                                   (''message'', JStr (''Randomly selected status code ''
                                                        @ str_int chosen)),
                                   (''available_codes'', JList (map JInt codes)),
                                   (''timestamp'', JStr (now 0 @ ''Z''))]\<rparr>"
    using Inr ne by (simp add: random_status_def random_choice_def chosen_def)
  have good: "\<not> (\<exists>c \<in> set (split_on CHR '','' (codes_param a)). py_int (strip c) = Inl ValueError)"
  proof
    assume "\<exists>c \<in> set (split_on CHR '','' (codes_param a)). py_int (strip c) = Inl ValueError"
    then obtain c where c: "c \<in> set (split_on CHR '','' (codes_param a))"
      and "py_int (strip c) = Inl ValueError" by blast
    moreover from entries c obtain n where "py_int (strip c) = Inr n"
      by (auto simp: list_all2_conv_all_nth in_set_conv_nth)
    ultimately show False by simp
  qed
  from entries ne mem run chosen_def
  have "\<exists>codes chosen.
               list_all2 (\<lambda>c n. py_int (strip c) = Inr n)
                 (split_on CHR '','' (codes_param a)) codes
               \<and> codes \<noteq> []
               \<and> chosen = codes ! (r mod length codes)
               \<and> chosen \<in> set codes
               \<and> random_status now r a
                   = Inr \<lparr>status = chosen,
                          body = JObj [(''status'', JInt chosen),
                                       (''message'', JStr (''Randomly selected status code ''
                                                            @ str_int chosen)),
                                       (''available_codes'', JList (map JInt codes)),
                                       (''timestamp'', JStr (now 0 @ ''Z''))]\<rparr>"
    by blast
  with run good show ?thesis by blast
qed

theorem random_status_outcome_witness:
  "random_status sample_clock 4 [(''codes'', ''abc,200'')]
     = Inr \<lparr>status = 400, body = JObj [(''error'', JStr ''Invalid status codes'')]\<rparr>
   \<and> random_status sample_clock 4 [(''codes'', ''201, 404'')]
     = Inr \<lparr>status = 201,
            body = JObj [(''status'', JInt 201),
                         (''message'', JStr ''Randomly selected status code 201''),
                         (''available_codes'', JList [JInt 201, JInt 404]),
                         (''timestamp'', JStr ''2024-01-01T00:00:00Z'')]\<rparr>
   \<and> random_status sample_clock 5 [(''codes'', ''201, 404'')]
     = Inr \<lparr>status = 404,
            body = JObj [(''status'', JInt 404),
                         (''message'', JStr ''Randomly selected status code 404''),
                         (''available_codes'', JList [JInt 201, JInt 404]),
                         (''timestamp'', JStr ''2024-01-01T00:00:00Z'')]\<rparr>"
proof -
  have bad: "\<exists>c \<in> set (split_on CHR '','' (codes_param [(''codes'', ''abc,200'')])).
               py_int (strip c) = Inl ValueError"
    by code_simp
  have entries: "split_on CHR '','' (codes_param [(''codes'', ''201, 404'')]) = [''201'', '' 404'']"
    by code_simp
  have p1: "py_int (strip ''201'') = Inr 201" and p2: "py_int (strip '' 404'') = Inr 404"
    by code_simp+
  have texts: "str_int 201 = ''201''" "str_int 404 = ''404''"
    "sample_clock 0 = ''2024-01-01T00:00:00''"
    by code_simp+
  from random_status_outcome [of sample_clock 4 "[(''codes'', ''abc,200'')]"] bad
  have first: "random_status sample_clock 4 [(''codes'', ''abc,200'')]
     = Inr \<lparr>status = 400, body = JObj [(''error'', JStr ''Invalid status codes'')]\<rparr>"
    by blast
  have pick: "random_status sample_clock r [(''codes'', ''201, 404'')]
     = Inr \<lparr>status = [201, 404] ! (r mod 2),
            body = JObj [(''status'', JInt ([201, 404] ! (r mod 2))),
                         (''message'', JStr (''Randomly selected status code ''
                                              @ str_int ([201, 404] ! (r mod 2)))),
                         (''available_codes'', JList [JInt 201, JInt 404]),
                         (''timestamp'', JStr (sample_clock 0 @ ''Z''))]\<rparr>" for r
  proof -
    have ok: "\<forall>c \<in> set (split_on CHR '','' (codes_param [(''codes'', ''201, 404'')])).
                py_int (strip c) \<noteq> Inl ValueError"
      unfolding entries using p1 p2 by simp
    from random_status_outcome [of sample_clock r "[(''codes'', ''201, 404'')]"] ok
    obtain codes where codes: "list_all2 (\<lambda>c n. py_int (strip c) = Inr n) [''201'', '' 404''] codes"
      and run: "random_status sample_clock r [(''codes'', ''201, 404'')]
                  = Inr \<lparr>status = codes ! (r mod length codes),
                         body = JObj [(''status'', JInt (codes ! (r mod length codes))),
                                      (''message'', JStr (''Randomly selected status code ''
                                                           @ str_int (codes ! (r mod length codes)))),
                                      (''available_codes'', JList (map JInt codes)),
                                      (''timestamp'', JStr (sample_clock 0 @ ''Z''))]\<rparr>"
      unfolding entries by blast
    from codes p1 p2 have "codes = [201, 404]"
      by (auto simp: list_all2_Cons1)
    with run show ?thesis by (simp add: numeral_2_eq_2)
  qed
  have four: "(4::nat) mod 2 = 0" and five: "(5::nat) mod 2 = 1"
    by simp_all
  from first pick [of 4] pick [of 5] texts four five show ?thesis
    by simp
qed

subsection \<open>Rate limiter emulation\<close>

text \<open>
  C9. When \<open>limit\<close> parses to a value of at least 1, then for every minute and every
  offset the synthetic count \<open>(minute + offset) mod limit\<close> is below the limit, so the
  handler returns status 200 with a positive remaining quota and never takes the 429
  branch. With \<open>limit = 0\<close> the modulo raises ZeroDivisionError, which nothing catches.
\<close>

theorem rate_limit_never_exceeded:
  assumes "int_arg a ''limit'' 10 = Inr limit"
  shows "(1 \<le> limit \<longrightarrow>
           (m + off) mod limit < limit
           \<and> (\<exists>resp. rate_limit_test reset m off a = Inr resp
                 \<and> status resp = 200
                 \<and> field ''current_count'' (body resp) = Some (JInt ((m + off) mod limit))
                 \<and> field ''remaining'' (body resp) = Some (JInt (limit - (m + off) mod limit))
                 \<and> 0 < limit - (m + off) mod limit))
         \<and> (limit = 0 \<longrightarrow> rate_limit_test reset m off a = Inl ZeroDivisionError)"
proof (intro conjI impI)
  assume "limit = 0"
  with assms show "rate_limit_test reset m off a = Inl ZeroDivisionError"
    by (simp add: rate_limit_test_def py_mod_def)
next
  assume pos: "1 \<le> limit"
  then show lt: "(m + off) mod limit < limit"
    by simp
  then have below: "\<not> limit \<le> (m + off) mod limit" and left: "0 < limit - (m + off) mod limit"
    by linarith+
  from pos have "limit \<noteq> 0" by simp
  with below left assms
  show "\<exists>resp. rate_limit_test reset m off a = Inr resp
                 \<and> status resp = 200
                 \<and> field ''current_count'' (body resp) = Some (JInt ((m + off) mod limit))
                 \<and> field ''remaining'' (body resp) = Some (JInt (limit - (m + off) mod limit))
                 \<and> 0 < limit - (m + off) mod limit"
    by (simp add: rate_limit_test_def py_mod_def)
qed

theorem rate_limit_never_exceeded_witness:
  "(\<exists>resp. rate_limit_test ''2024-01-01T00:59:00'' 59 15 [(''limit'', ''7'')] = Inr resp
        \<and> status resp = 200 \<and> field ''remaining'' (body resp) = Some (JInt 3))
   \<and> rate_limit_test ''2024-01-01T00:59:00'' 59 15 [(''limit'', ''0'')] = Inl ZeroDivisionError"
proof -
  have seven: "int_arg [(''limit'', ''7'')] ''limit'' 10 = Inr 7"
    and zero: "int_arg [(''limit'', ''0'')] ''limit'' 10 = Inr 0"
    by code_simp+
  from rate_limit_never_exceeded [OF seven, of 59 15 "''2024-01-01T00:59:00''"]
       rate_limit_never_exceeded [OF zero, of 59 15 "''2024-01-01T00:59:00''"]
  show ?thesis by auto
qed


subsection \<open>Numeric parameters that do not parse\<close>

text \<open>
  C3. The specification asks that a numeric query parameter that does not parse still
  yields a well-formed response. The handlers call \<open>int\<close> on the raw text with nothing around
  it: \<open>chunks=abc\<close> to \<open>/advanced/streaming\<close> and \<open>limit=abc\<close> to
  \<open>/simulate/rate-limit\<close> both end in an uncaught ValueError.
\<close>

theorem unparsable_number_escapes:
  "streaming_response now [(''chunks'', ''abc'')] = Inl ValueError
   \<and> rate_limit_test reset m off [(''limit'', ''abc'')] = Inl ValueError"
  using py_int_abc
  by (simp add: streaming_response_def streaming_params_def rate_limit_test_def int_arg_def)

end
